theory Spec2Isabelle
  imports Complex_Main "HOL-Library.Sublist" "HOL-Library.AList"
begin

section \<open>Python strings\<close>

text \<open>
  A Python \<open>str\<close> is a sequence of code points. The model is a \<open>string\<close>, one \<open>char\<close> for
  each code point, so it covers the code points 0 to 255 (Latin-1); the character classes
  below are the ones Python 3 uses on that range.
\<close>

definition is_space :: "char \<Rightarrow> bool" where
  \<comment> \<open>\<open>str.isspace\<close>, the class \<open>\s\<close> of \<open>re\<close>, and the separators of \<open>str.split()\<close> and \<open>str.strip()\<close>\<close>
  "is_space c = (of_char c \<in> set [9, 10, 11, 12, 13, 28, 29, 30, 31, 32, 133, 160 :: nat])"

definition is_word :: "char \<Rightarrow> bool" where
  \<comment> \<open>the class \<open>\w\<close> of \<open>re\<close> on \<open>str\<close> patterns: alphanumeric or underscore\<close>
  "is_word c =
     (let n = (of_char c :: nat) in
        (48 \<le> n \<and> n \<le> 57) \<or> (65 \<le> n \<and> n \<le> 90) \<or> n = 95 \<or> (97 \<le> n \<and> n \<le> 122)
        \<or> n \<in> set [170, 178, 179, 181, 185, 186, 188, 189, 190]
        \<or> (192 \<le> n \<and> n \<le> 214) \<or> (216 \<le> n \<and> n \<le> 246) \<or> 248 \<le> n)"

definition lower_char :: "char \<Rightarrow> char" where
  "lower_char c =
     (let n = (of_char c :: nat) in
        if (65 \<le> n \<and> n \<le> 90) \<or> (192 \<le> n \<and> n \<le> 214) \<or> (216 \<le> n \<and> n \<le> 222)
        then char_of (n + 32) else c)"

definition lower :: "string \<Rightarrow> string" where
  \<comment> \<open>\<open>str.lower\<close>\<close>
  "lower s = map lower_char s"

definition strip :: "string \<Rightarrow> string" where
  \<comment> \<open>\<open>str.strip()\<close>: leading and trailing whitespace removed\<close>
  "strip s = rev (dropWhile is_space (rev (dropWhile is_space s)))"

fun contains :: "string \<Rightarrow> string \<Rightarrow> bool" where
  \<comment> \<open>\<open>sub in s\<close>\<close>
  "contains sub [] = (sub = [])"
| "contains sub (c # cs) = (prefix sub (c # cs) \<or> contains sub cs)"

function split_ws :: "string \<Rightarrow> string list" where
  \<comment> \<open>\<open>s.split()\<close>: the maximal runs of non-whitespace characters\<close>
  "split_ws s =
     (let t = dropWhile is_space s in
        if t = [] then []
        else takeWhile (\<lambda>c. \<not> is_space c) t # split_ws (dropWhile (\<lambda>c. \<not> is_space c) t))"
  by pat_completeness auto
termination
proof (relation "measure length", goal_cases)
  case 1
  show ?case by simp
next
  case (2 s t)
  then obtain c cs where t: "t = c # cs" and c: "\<not> is_space c"
    by (metis hd_dropWhile list.collapse)
  have "length (dropWhile (\<lambda>c. \<not> is_space c) t) \<le> length cs"
    using c by (simp add: t length_dropWhile_le)
  also have "\<dots> < length t" by (simp add: t)
  also have "\<dots> \<le> length s" using 2 by (simp add: length_dropWhile_le)
  finally show ?case by simp
qed

declare split_ws.simps [simp del]

function split_sep :: "string \<Rightarrow> string \<Rightarrow> string list" where
  \<comment> \<open>\<open>s.split(sep)\<close> for a non-empty separator (Python raises ValueError on an empty one)\<close>
  "split_sep sep [] = [[]]"
| "split_sep sep (c # cs) =
     (if sep \<noteq> [] \<and> prefix sep (c # cs) then [] # split_sep sep (drop (length sep) (c # cs))
      else (case split_sep sep cs of [] \<Rightarrow> [[c]] | w # ws \<Rightarrow> (c # w) # ws))"
  by pat_completeness auto
termination
  by (relation "measure (\<lambda>(sep, s). length s)") (auto simp: neq_Nil_conv)

datatype py_error = IndexError | TypeError | AttributeError | EOFError | RequestFailed

definition first :: "'a list \<Rightarrow> py_error + 'a" where
  \<comment> \<open>\<open>xs[0]\<close>\<close>
  "first xs = (case xs of [] \<Rightarrow> Inl IndexError | x # _ \<Rightarrow> Inr x)"

section \<open>The regular expressions of \<open>generate_filename\<close>\<close>

text \<open>
  The patterns of the source are sequences of single-character classes, some of them under
  a greedy \<open>+\<close>, with at most one capturing group. \<open>match_here\<close> is the backtracking
  matcher of \<open>re\<close> on such a pattern, anchored at the start of its input: a greedy \<open>+\<close>
  first takes the longest run and gives characters back one at a time until the rest of the
  pattern matches. The result is the text of group 1.
\<close>

datatype re_item = Lit "char \<Rightarrow> bool" | Plus "char \<Rightarrow> bool" | Group_Plus "char \<Rightarrow> bool"

fun first_some :: "'a option list \<Rightarrow> 'a option" where
  "first_some [] = None"
| "first_some (None # xs) = first_some xs"
| "first_some (Some x # xs) = Some x"

definition tries :: "nat \<Rightarrow> nat list" where
  \<comment> \<open>the lengths a greedy \<open>+\<close> tries on a run of \<open>n\<close> characters: \<open>n\<close> first, at least one\<close>
  "tries n = rev [1 ..< Suc n]"

primrec match_here :: "re_item list \<Rightarrow> string \<Rightarrow> string option" where
  "match_here [] s = Some []"
| "match_here (it # r) s =
     (case it of
        Lit p \<Rightarrow> (case s of [] \<Rightarrow> None | c # cs \<Rightarrow> if p c then match_here r cs else None)
      | Plus p \<Rightarrow>
          first_some (map (\<lambda>k. match_here r (drop k s)) (tries (length (takeWhile p s))))
      | Group_Plus p \<Rightarrow>
          first_some (map (\<lambda>k. map_option (\<lambda>_. take k s) (match_here r (drop k s)))
                          (tries (length (takeWhile p s)))))"

definition re_search :: "re_item list \<Rightarrow> string \<Rightarrow> string option" where
  \<comment> \<open>\<open>re.search\<close>: the match at the leftmost start position that has one; \<open>None\<close> if there is none\<close>
  "re_search pat s = first_some (map (\<lambda>i. match_here pat (drop i s)) [0 ..< Suc (length s)])"

definition ignore_case :: "char \<Rightarrow> char \<Rightarrow> bool" where
  \<comment> \<open>a literal letter under \<open>re.IGNORECASE\<close>\<close>
  "ignore_case a c = (lower_char c = lower_char a)"

definition city_pattern :: "re_item list" where
  \<comment> \<open>\<open>r'in\s+([^,]+)'\<close> with \<open>re.IGNORECASE\<close>\<close>
  "city_pattern =
     [Lit (ignore_case CHR ''i''), Lit (ignore_case CHR ''n''), Plus is_space,
      Group_Plus (\<lambda>c. c \<noteq> CHR '','')]"

definition sub_strip :: "string \<Rightarrow> string" where
  \<comment> \<open>\<open>re.sub(r'[^\w\s-]', '', s)\<close>\<close>
  "sub_strip s = filter (\<lambda>c. is_word c \<or> is_space c \<or> c = CHR ''-'') s"

definition is_sep :: "char \<Rightarrow> bool" where
  \<comment> \<open>the class \<open>[-\s]\<close>\<close>
  "is_sep c = (c = CHR ''-'' \<or> is_space c)"

function sub_collapse :: "string \<Rightarrow> string" where
  \<comment> \<open>\<open>re.sub(r'[-\s]+', '_', s)\<close>: every maximal run of hyphens and whitespace becomes one underscore\<close>
  "sub_collapse [] = []"
| "sub_collapse (c # cs) =
     (if is_sep c then CHR ''_'' # sub_collapse (dropWhile is_sep cs) else c # sub_collapse cs)"
  by pat_completeness auto
termination
  by (relation "measure length") (auto simp: length_dropWhile_le less_Suc_eq_le)

definition clean :: "string \<Rightarrow> string" where
  \<comment> \<open>the two substitutions applied to \<open>city\<close> and to \<open>business_type\<close>\<close>
  "clean s = sub_collapse (strip (sub_strip s))"

definition city_of :: "string \<Rightarrow> string" where
  \<comment> \<open>the value of \<open>city\<close> before the clean-up\<close>
  "city_of search_query =
     (case re_search city_pattern search_query of
        Some g \<Rightarrow> strip g
      | None \<Rightarrow>
          (let parts = split_ws search_query in
             if length parts > 2
             then parts ! (length parts - 2) @ ''_'' @ parts ! (length parts - 1)
             else ''search_results''))"

definition business_type_of :: "string \<Rightarrow> py_error + string" where
  \<comment> \<open>the value of \<open>business_type\<close> before the clean-up\<close>
  "business_type_of search_query =
     (if contains '' in '' (lower search_query)
      then map_sum id strip (first (split_sep '' in '' search_query))
      else first (split_ws search_query))"

definition generate_filename :: "string \<Rightarrow> py_error + string" where
  "generate_filename search_query =
     (let city = city_of search_query in
      case business_type_of search_query of
        Inl e \<Rightarrow> Inl e
      | Inr business_type \<Rightarrow>
          Inr (clean city @ ''_'' @ clean business_type @ ''_results.csv''))"

section \<open>JSON values and Python dictionaries\<close>

text \<open>
  The upstream responses and the request bodies are parsed JSON. A dictionary is an
  association list read with \<open>map_of\<close>; Python's \<open>None\<close> is \<open>JNull\<close>.
\<close>

datatype json = JNull | JBool bool | JNum rat | JStr string | JArr "json list"
  | JObj "(string \<times> json) list"

type_synonym dict = "(string \<times> json) list"

fun truthy :: "json \<Rightarrow> bool" where
  \<comment> \<open>\<open>bool(v)\<close>\<close>
  "truthy JNull = False"
| "truthy (JBool b) = b"
| "truthy (JNum x) = (x \<noteq> 0)"
| "truthy (JStr s) = (s \<noteq> [])"
| "truthy (JArr xs) = (xs \<noteq> [])"
| "truthy (JObj kvs) = (kvs \<noteq> [])"

definition dict_get :: "dict \<Rightarrow> string \<Rightarrow> json \<Rightarrow> json" where
  \<comment> \<open>\<open>d.get(k, default)\<close>\<close>
  "dict_get d k dflt = (case map_of d k of None \<Rightarrow> dflt | Some v \<Rightarrow> v)"

fun traverse :: "('a \<Rightarrow> py_error + 'b) \<Rightarrow> 'a list \<Rightarrow> py_error + 'b list" where
  \<comment> \<open>a \<open>for\<close> loop that appends one result for each element and stops at the first exception\<close>
  "traverse f [] = Inr []"
| "traverse f (x # xs) =
     (case f x of
        Inl e \<Rightarrow> Inl e
      | Inr y \<Rightarrow> (case traverse f xs of Inl e \<Rightarrow> Inl e | Inr ys \<Rightarrow> Inr (y # ys)))"

section \<open>The result extractor\<close>

text \<open>
  The dictionary built for one place has the same seven keys every time, so it is a record.
  The field \<open>id\<close> of the source is \<open>id_field\<close> here.
\<close>

record place_data =
  id_field :: json
  displayName :: json
  formattedAddress :: json
  primaryType :: json
  rating :: json
  userRatingCount :: json
  businessStatus :: json

definition extract_place :: "json \<Rightarrow> py_error + place_data" where
  \<comment> \<open>the body of the loop of \<open>extract_place_data\<close>; \<open>.get\<close> on a value that is no dictionary raises\<close>
  "extract_place place =
     (case place of
        JObj p \<Rightarrow>
          (case dict_get p ''displayName'' (JObj []) of
             JObj dn \<Rightarrow>
               Inr \<lparr> id_field = dict_get p ''id'' (JStr []),
                     displayName = dict_get dn ''text'' (JStr []),
                     formattedAddress = dict_get p ''formattedAddress'' (JStr []),
                     primaryType = dict_get p ''primaryType'' (JStr []),
                     rating = dict_get p ''rating'' (JStr []),
                     userRatingCount = dict_get p ''userRatingCount'' (JStr []),
                     businessStatus = dict_get p ''businessStatus'' (JStr []) \<rparr>
           | _ \<Rightarrow> Inl AttributeError)
      | _ \<Rightarrow> Inl AttributeError)"

definition extract_place_data :: "dict \<Rightarrow> py_error + place_data list" where
  "extract_place_data api_response =
     (case map_of api_response ''places'' of
        None \<Rightarrow> Inr []
      | Some (JArr places) \<Rightarrow> traverse extract_place places
      | Some (JObj kvs) \<Rightarrow> traverse extract_place (map (\<lambda>kv. JStr (fst kv)) kvs)
      | Some (JStr s) \<Rightarrow> traverse extract_place (map (\<lambda>c. JStr [c]) s)
      | Some _ \<Rightarrow> Inl TypeError)"

section \<open>The query client\<close>

text \<open>
  The upstream service is a parameter \<open>api\<close>: from the effects so far and the payload of the
  request to the parsed response, or \<open>None\<close> when the request fails. Every request and every
  settling delay is recorded in the trace.
\<close>

datatype event = Sleep nat | Post dict

type_synonym upstream = "event list \<Rightarrow> dict \<Rightarrow> dict option"

definition payload_of :: "string \<Rightarrow> json \<Rightarrow> dict" where
  "payload_of text_query page_token =
     (if truthy page_token
      then [(''textQuery'', JStr text_query), (''pageToken'', page_token)]
      else [(''textQuery'', JStr text_query)])"

definition search_places ::
  "upstream \<Rightarrow> event list \<Rightarrow> string \<Rightarrow> json \<Rightarrow> (py_error + dict) \<times> event list" where
  "search_places api tr text_query page_token =
     (let payload = payload_of text_query page_token in
        (case api tr payload of None \<Rightarrow> Inl RequestFailed | Some r \<Rightarrow> Inr r,
         tr @ [Post payload]))"

section \<open>The served variant: sessions and endpoints\<close>

record session =
  query :: string
  all_places :: "place_data list"
  next_page_token :: json
  page_count :: int
  filename :: string

record world =
  session_data :: "(string \<times> session) list"
  trace :: "event list"

datatype csv_row = Header "string list" | Row "json list"

datatype response =
    Error_Response nat string
  | Exception_Response py_error
  | Search_Response string "place_data list" bool nat string
  | More_Response "place_data list" bool nat int
  | File_Response "csv_row list" string

text \<open>
  \<open>Error_Response status msg\<close> is \<open>jsonify({'error': msg}), status\<close>; \<open>Exception_Response e\<close> is
  the answer of the \<open>except\<close> clause, status 500. The other three are the successful
  answers, with the fields in the order of the source.
\<close>

fun str_nat :: "nat \<Rightarrow> string" where
  \<comment> \<open>the decimal digits of a number, as in an f-string\<close>
  "str_nat n =
     (if n < 10 then [char_of (48 + n)] else str_nat (n div 10) @ [char_of (48 + n mod 10)])"

declare str_nat.simps [simp del]

definition fieldnames :: "string list" where
  "fieldnames = [''id'', ''displayName'', ''formattedAddress'', ''primaryType'', ''rating'',
                 ''userRatingCount'', ''businessStatus'']"

definition row_of :: "place_data \<Rightarrow> csv_row" where
  \<comment> \<open>the cells \<open>DictWriter\<close> writes for one place, in the order of \<open>fieldnames\<close>\<close>
  "row_of p = Row [id_field p, displayName p, formattedAddress p, primaryType p, rating p,
                   userRatingCount p, businessStatus p]"

definition search :: "upstream \<Rightarrow> world \<Rightarrow> json \<Rightarrow> response \<times> world" where
  "search api w data =
     (case data of
        JObj d \<Rightarrow>
          (case dict_get d ''query'' (JStr []) of
             JStr q \<Rightarrow>
               (let search_query = strip q in
                if search_query = [] then (Error_Response 400 ''Search query is required'', w)
                else
                  (case search_places api (trace w) search_query JNull of
                     (Inl e, tr) \<Rightarrow> (Exception_Response e, w\<lparr>trace := tr\<rparr>)
                   | (Inr api_response, tr) \<Rightarrow>
                       (case extract_place_data api_response of
                          Inl e \<Rightarrow> (Exception_Response e, w\<lparr>trace := tr\<rparr>)
                        | Inr places_data \<Rightarrow>
                            if places_data = []
                            then (Error_Response 404 ''No places found matching your search criteria'',
                                  w\<lparr>trace := tr\<rparr>)
                            else
                              (let session_id = ''session_'' @ str_nat (length (session_data w)) in
                               case generate_filename search_query of
                                 Inl e \<Rightarrow> (Exception_Response e, w\<lparr>trace := tr\<rparr>)
                               | Inr fname \<Rightarrow>
                                   (Search_Response session_id places_data
                                      (truthy (dict_get api_response ''nextPageToken'' JNull))
                                      (length places_data) fname,
                                    w\<lparr>session_data :=
                                         AList.update session_id
                                           \<lparr> query = search_query,
                                             all_places = places_data,
                                             next_page_token =
                                               dict_get api_response ''nextPageToken'' JNull,
                                             page_count = 1,
                                             filename = fname \<rparr>
                                           (session_data w),
                                       trace := tr\<rparr>)))))
           | _ \<Rightarrow> (Exception_Response AttributeError, w))
      | _ \<Rightarrow> (Exception_Response AttributeError, w))"

definition more_for :: "upstream \<Rightarrow> world \<Rightarrow> string \<Rightarrow> session \<Rightarrow> response \<times> world" where
  \<comment> \<open>\<open>search_more\<close> from the line \<open>session = session_data[session_id]\<close> on\<close>
  "more_for api w session_id session =
     (if \<not> truthy (next_page_token session)
      then (Error_Response 400 ''No more results available'', w)
      else if page_count session \<ge> 3
      then (Error_Response 400 ''Maximum results limit reached (60 results)'', w)
      else
        (case search_places api (trace w @ [Sleep 3]) (query session) (next_page_token session) of
           (Inl e, tr) \<Rightarrow> (Exception_Response e, w\<lparr>trace := tr\<rparr>)
         | (Inr api_response, tr) \<Rightarrow>
             (case extract_place_data api_response of
                Inl e \<Rightarrow> (Exception_Response e, w\<lparr>trace := tr\<rparr>)
              | Inr additional_places \<Rightarrow>
                  if additional_places \<noteq> []
                  then
                    (let session' = session
                           \<lparr> all_places := all_places session @ additional_places,
                             next_page_token := dict_get api_response ''nextPageToken'' JNull,
                             page_count := page_count session + 1 \<rparr>
                     in (More_Response additional_places
                           (truthy (dict_get api_response ''nextPageToken'' JNull)
                            \<and> page_count session' < 3)
                           (length (all_places session')) (page_count session'),
                         w\<lparr>session_data := AList.update session_id session' (session_data w),
                           trace := tr\<rparr>))
                  else (Error_Response 404 ''No additional places found'', w\<lparr>trace := tr\<rparr>))))"

definition search_more :: "upstream \<Rightarrow> world \<Rightarrow> json \<Rightarrow> response \<times> world" where
  "search_more api w data =
     (case data of
        JObj d \<Rightarrow>
          (let session_id = dict_get d ''session_id'' JNull in
           if \<not> truthy session_id then (Error_Response 400 ''Invalid session'', w)
           else
             (case session_id of
                JStr sid \<Rightarrow>
                  (case map_of (session_data w) sid of
                     None \<Rightarrow> (Error_Response 400 ''Invalid session'', w)
                   | Some session \<Rightarrow> more_for api w sid session)
              | JArr _ \<Rightarrow> (Exception_Response TypeError, w)
              | JObj _ \<Rightarrow> (Exception_Response TypeError, w)
              | _ \<Rightarrow> (Error_Response 400 ''Invalid session'', w)))
      | _ \<Rightarrow> (Exception_Response AttributeError, w))"

definition download_csv :: "world \<Rightarrow> string \<Rightarrow> response" where
  \<comment> \<open>the temporary file is the list of rows written to it\<close>
  "download_csv w session_id =
     (case map_of (session_data w) session_id of
        None \<Rightarrow> Error_Response 400 ''Invalid session''
      | Some session \<Rightarrow>
          (let places_data = all_places session in
           if places_data = [] then Error_Response 400 ''No data to download''
           else File_Response (Header fieldnames # map row_of places_data) (filename session)))"

datatype request = Search json | More json | Download string

fun handle :: "upstream \<Rightarrow> world \<Rightarrow> request \<Rightarrow> response \<times> world" where
  "handle api w (Search data) = search api w data"
| "handle api w (More data) = search_more api w data"
| "handle api w (Download session_id) = (download_csv w session_id, w)"

definition initial_world :: world where
  \<comment> \<open>\<open>session_data = {}\<close> at start-up\<close>
  "initial_world = \<lparr> session_data = [], trace = [] \<rparr>"

fun serve :: "upstream \<Rightarrow> world \<Rightarrow> request list \<Rightarrow> world" where
  \<comment> \<open>the server handles the requests one after the other\<close>
  "serve api w [] = w"
| "serve api w (r # rs) = serve api (snd (handle api w r)) rs"

text \<open>
  The pages a session has accumulated, read off a run of the server: the page of the
  answer that created the session, then the page of every successful answer to a request
  for more that names the session.
\<close>

fun serve_log :: "upstream \<Rightarrow> world \<Rightarrow> request list \<Rightarrow> (request \<times> response) list" where
  \<comment> \<open>the requests of a run of the server, each with its answer\<close>
  "serve_log api w [] = []"
| "serve_log api w (r # rs) = (r, fst (handle api w r)) # serve_log api (snd (handle api w r)) rs"

definition session_of :: "json \<Rightarrow> string option" where
  \<comment> \<open>the session that the body of a request for more names\<close>
  "session_of data =
     (case data of
        JObj d \<Rightarrow> (case dict_get d ''session_id'' JNull of JStr sid \<Rightarrow> Some sid | _ \<Rightarrow> None)
      | _ \<Rightarrow> None)"

fun pages_step :: "string \<Rightarrow> place_data list list \<Rightarrow> request \<times> response \<Rightarrow> place_data list list" where
  "pages_step sid pages (Search data, Search_Response sid' places has_more total_count fname) =
     (if sid' = sid then [places] else pages)"
| "pages_step sid pages (More data, More_Response places has_more total_count pc) =
     (if session_of data = Some sid then pages @ [places] else pages)"
| "pages_step sid pages other = pages"

definition pages_of :: "string \<Rightarrow> (request \<times> response) list \<Rightarrow> place_data list list" where
  "pages_of sid history = foldl (pages_step sid) [] history"

section \<open>The non-served variant: the exporter and the command-line flow\<close>

text \<open>
  A file is the list of the CSV rows it holds, so a file of size zero is the empty list.
  \<open>denied\<close> tells the paths that \<open>open\<close> refuses with an \<open>IOError\<close>. \<open>stdout\<close> holds the
  argument of every call of \<open>print\<close>, in order, with three exceptions: a message that ends
  with the text of an exception is kept without that text; the two lines of
  \<open>search_places\<close> that echo the payload and the response are left out, and so are the
  lines of the final listing, since they print the \<open>repr\<close> of values; the prompts of
  \<open>input\<close> are left out with the input loops (see \<open>paginate\<close>).
\<close>

record cli =
  files :: "string \<Rightarrow> csv_row list option"
  denied :: "string \<Rightarrow> bool"
  stdout :: "string list"
  requests :: "event list"

datatype exit = Exit nat | Uncaught py_error

definition print :: "string \<Rightarrow> cli \<Rightarrow> cli" where
  "print line st = st\<lparr>stdout := stdout st @ [line]\<rparr>"

definition sleep :: "nat \<Rightarrow> cli \<Rightarrow> cli" where
  \<comment> \<open>\<open>time.sleep\<close>\<close>
  "sleep n st = st\<lparr>requests := requests st @ [Sleep n]\<rparr>"

definition newline :: string where
  \<comment> \<open>the \<open>\n\<close> at the start of some messages\<close>
  "newline = [CHR 0x0A]"

definition str_int :: "int \<Rightarrow> string" where
  \<comment> \<open>an integer in an f-string\<close>
  "str_int i = (if i < 0 then ''-'' @ str_nat (nat (- i)) else str_nat (nat i))"

definition tell_append :: "cli \<Rightarrow> string \<Rightarrow> csv_row list" where
  \<comment> \<open>what a file opened in mode \<open>'a'\<close> holds before the first write: the old rows, or nothing for
      a file that \<open>open\<close> has just created; \<open>csvfile.tell() == 0\<close> is the test that this is \<open>[]\<close>\<close>
  "tell_append st name = (case files st name of None \<Rightarrow> [] | Some rows \<Rightarrow> rows)"

text \<open>
  The parameters \<open>filename\<close> and \<open>append\<close> of \<open>save_to_csv\<close> are \<open>name\<close> and \<open>append_flag\<close>.
\<close>

definition save_to_csv ::
  "cli \<Rightarrow> place_data list \<Rightarrow> string \<Rightarrow> bool \<Rightarrow> (exit + unit) \<times> cli" where
  "save_to_csv st places_data name append_flag =
     (if places_data = [] then (Inr (), print ''No data to save to CSV'' st)
      else if denied st name then (Inl (Exit 1), print ''Error writing to CSV file'' st)
      else
        (let old_rows = (if append_flag then tell_append st name else []);
             header = (if \<not> append_flag \<or> old_rows = [] then [Header fieldnames] else []);
             action = (if append_flag then ''appended to'' else ''saved to'')
         in (Inr (),
             print (''Added '' @ str_nat (length places_data) @ '' places'')
               (print (''Results '' @ action @ '' '' @ name)
                  (st\<lparr>files := (files st)(name \<mapsto> old_rows @ header @ map row_of places_data)\<rparr>)))))"

definition search_places_cli ::
  "upstream \<Rightarrow> cli \<Rightarrow> string \<Rightarrow> json \<Rightarrow> (exit + dict) \<times> cli" where
  \<comment> \<open>\<open>search_places\<close> of \<open>main.py\<close>: a failed request ends the process. The message is that
      of the first \<open>except\<close> clause; a response that is no JSON, which has a clause and a
      message of its own, is not told apart from it.\<close>
  "search_places_cli api st text_query page_token =
     (case search_places api (requests st) text_query page_token of
        (Inl e, tr) \<Rightarrow> (Inl (Exit 1), print ''Error making API request'' (st\<lparr>requests := tr\<rparr>))
      | (Inr r, tr) \<Rightarrow> (Inr r, st\<lparr>requests := tr\<rparr>))"

definition extract_place_data_cli ::
  "cli \<Rightarrow> dict \<Rightarrow> (py_error + place_data list) \<times> cli" where
  \<comment> \<open>\<open>extract_place_data\<close> of \<open>main.py\<close>: as in \<open>app.py\<close>, with a message when there is no
      place list\<close>
  "extract_place_data_cli st api_response =
     (case map_of api_response ''places'' of
        None \<Rightarrow> (Inr [], print ''No places found in API response'' st)
      | Some _ \<Rightarrow> (extract_place_data api_response, st))"

definition announce_search :: "string \<Rightarrow> string \<Rightarrow> cli \<Rightarrow> cli" where
  \<comment> \<open>the three lines of \<open>main\<close> before the first request\<close>
  "announce_search SEARCH_QUERY name st =
     print ''Making API request...''
       (print (''Results will be saved to: '' @ name)
         (print (newline @ ''Searching for: '' @ SEARCH_QUERY) st))"

definition announce_page :: "int \<Rightarrow> cli \<Rightarrow> cli" where
  \<comment> \<open>the lines of the loop body before the request for one more page, and the delay\<close>
  "announce_page page_count' st =
     print ''Making additional API request...''
       (sleep 3
         (print ''Waiting for next page token to become valid (3 seconds)...''
           (print (newline @ ''Fetching page '' @ str_int (page_count' + 1) @ '' of results...'')
              st)))"

text \<open>
  The \<open>while\<close> loop of \<open>main\<close>. The answers of the user to \<open>ask_user_for_more_results\<close> are an
  input, one for each call; reading past the last one is the \<open>EOFError\<close> of \<open>input\<close>. The
  loop state is \<open>(all_places_data, next_page_token, page_count)\<close>, the last two written
  with a prime.
\<close>

fun paginate ::
  "upstream \<Rightarrow> string \<Rightarrow> string \<Rightarrow> bool list \<Rightarrow> cli \<Rightarrow> place_data list \<times> json \<times> int
   \<Rightarrow> (exit + place_data list \<times> json \<times> int) \<times> cli" where
  "paginate api SEARCH_QUERY name [] st (all_places_data, next_page_token', page_count') =
     (if truthy next_page_token' \<and> page_count' < 3 then (Inl (Uncaught EOFError), st)
      else (Inr (all_places_data, next_page_token', page_count'), st))"
| "paginate api SEARCH_QUERY name (answer # answers) st
      (all_places_data, next_page_token', page_count') =
     (if truthy next_page_token' \<and> page_count' < 3 then
        if answer then
          (case search_places_cli api (announce_page page_count' st)
                  SEARCH_QUERY next_page_token' of
             (Inl x, st1) \<Rightarrow> (Inl x, st1)
           | (Inr additional_response, st1) \<Rightarrow>
               (case extract_place_data_cli st1 additional_response of
                  (Inl e, st2) \<Rightarrow> (Inl (Uncaught e), st2)
                | (Inr additional_places_data, st2) \<Rightarrow>
                    if additional_places_data \<noteq> [] then
                      (case save_to_csv st2 additional_places_data name True of
                         (Inl x, st3) \<Rightarrow> (Inl x, st3)
                       | (Inr _, st3) \<Rightarrow>
                           paginate api SEARCH_QUERY name answers st3
                             (all_places_data @ additional_places_data,
                              dict_get additional_response ''nextPageToken'' JNull,
                              page_count' + 1))
                    else
                      paginate api SEARCH_QUERY name answers
                        (print ''No additional places found'' st2)
                        (all_places_data, JNull, page_count')))
        else (Inr (all_places_data, next_page_token', page_count'), st)
      else (Inr (all_places_data, next_page_token', page_count'), st))"

definition final_summary :: "place_data list \<Rightarrow> int \<Rightarrow> cli \<Rightarrow> cli" where
  \<comment> \<open>the lines of \<open>main\<close> after the loop, up to the listing\<close>
  "final_summary all_places_data page_count' st =
     print (newline @ ''All results:'')
       (print (''Total places found: '' @ str_nat (length all_places_data))
         (print (newline @ ''Final Summary:'')
           (if page_count' \<ge> 3
            then print (newline @ ''Reached maximum limit of 60 results (3 pages)'') st
            else st)))"

definition main ::
  "upstream \<Rightarrow> cli \<Rightarrow> string \<Rightarrow> bool list
   \<Rightarrow> (exit + (string \<times> place_data list \<times> json \<times> int) option) \<times> cli" where
  \<comment> \<open>\<open>SEARCH_QUERY\<close> is what \<open>get_user_search_query\<close> returned. The result is \<open>None\<close> for the
      early return on an empty first page, else the file name and the loop state at the end.\<close>
  "main api st SEARCH_QUERY answers =
     (case generate_filename SEARCH_QUERY of
        Inl e \<Rightarrow> (Inl (Uncaught e), st)
      | Inr name \<Rightarrow>
          (case search_places_cli api (announce_search SEARCH_QUERY name st)
                  SEARCH_QUERY JNull of
             (Inl x, st1) \<Rightarrow> (Inl x, st1)
           | (Inr api_response, st1) \<Rightarrow>
               (case extract_place_data_cli st1 api_response of
                  (Inl e, st2) \<Rightarrow> (Inl (Uncaught e), st2)
                | (Inr all_places_data, st2) \<Rightarrow>
                    if all_places_data = []
                    then (Inr None, print ''No places found matching your search criteria'' st2)
                    else
                      (case save_to_csv st2 all_places_data name False of
                         (Inl x, st3) \<Rightarrow> (Inl x, st3)
                       | (Inr _, st3) \<Rightarrow>
                           (case paginate api SEARCH_QUERY name answers st3
                                   (all_places_data,
                                    dict_get api_response ''nextPageToken'' JNull, 1) of
                              (Inl x, st4) \<Rightarrow> (Inl x, st4)
                            | (Inr (places, token, page_count'), st4) \<Rightarrow>
                                (Inr (Some (name, places, token, page_count')),
                                 final_summary places page_count' st4))))))"

section \<open>Notions of the specification\<close>

definition NoResultsError :: response where
  "NoResultsError = Error_Response 404 ''No places found matching your search criteria''"

definition NoMoreResults :: response where
  "NoMoreResults = Error_Response 400 ''No more results available''"

definition PageLimitReached :: response where
  "PageLimitReached = Error_Response 400 ''Maximum results limit reached (60 results)''"

definition NoDataError :: response where
  "NoDataError = Error_Response 400 ''No data to download''"

fun before_ci :: "string \<Rightarrow> string \<Rightarrow> string" where
  \<comment> \<open>the text before the first occurrence of \<open>sep\<close> in \<open>s\<close>, letters compared without case\<close>
  "before_ci sep [] = []"
| "before_ci sep (c # cs) =
     (if prefix (lower sep) (lower (c # cs)) then [] else c # before_ci sep cs)"

definition spec_category :: "string \<Rightarrow> py_error + string" where
  \<comment> \<open>the category in the words of the specification: the text before the first " in ",
      compared without case, if there is one, else the first whitespace token\<close>
  "spec_category search_query =
     (if contains '' in '' (lower search_query) then Inr (before_ci '' in '' search_query)
      else first (split_ws search_query))"



definition page_cap_ok :: "world \<Rightarrow> bool" where
  \<comment> \<open>every session of the store has a page count between 1 and 3\<close>
  "page_cap_ok w =
     (\<forall>sid s. map_of (session_data w) sid = Some s \<longrightarrow> 1 \<le> page_count s \<and> page_count s \<le> 3)"

definition pages_ok :: "world \<Rightarrow> string \<Rightarrow> place_data list list \<Rightarrow> bool" where
  \<comment> \<open>the session \<open>sid\<close> of the store holds these pages and counts them, at most three\<close>
  "pages_ok w sid pages =
     (length pages \<le> 3 \<and>
      (case map_of (session_data w) sid of
         None \<Rightarrow> pages = []
       | Some s \<Rightarrow> pages \<noteq> [] \<and> all_places s = concat pages \<and> page_count s = int (length pages)))"

definition requests_of :: "event list \<Rightarrow> event list" where
  \<comment> \<open>the upstream calls among the effects\<close>
  "requests_of tr = filter (\<lambda>e. case e of Post _ \<Rightarrow> True | Sleep _ \<Rightarrow> False) tr"

section \<open>Example data\<close>

text \<open>
  Upstream services for the examples: one always reports a continuation token, one stops
  reporting it with its third page, one has a single page, one finds nothing.
\<close>

definition example_place :: json where
  "example_place =
     JObj [(''id'', JStr ''p1''), (''displayName'', JObj [(''text'', JStr ''Acme'')])]"

definition example_record :: place_data where
  "example_record =
     \<lparr> id_field = JStr ''p1'', displayName = JStr ''Acme'', formattedAddress = JStr [],
       primaryType = JStr [], rating = JStr [], userRatingCount = JStr [],
       businessStatus = JStr [] \<rparr>"

definition page_with_token :: dict where
  "page_with_token = [(''places'', JArr [example_place]), (''nextPageToken'', JStr ''t'')]"

definition last_page :: dict where
  "last_page = [(''places'', JArr [example_place])]"

definition endless_api :: upstream where
  "endless_api tr payload = Some page_with_token"

definition finite_api :: upstream where
  "finite_api tr payload =
     Some (if length (requests_of tr) < 2 then page_with_token else last_page)"

definition one_page_api :: upstream where
  "one_page_api tr payload = Some (if requests_of tr = [] then page_with_token else [])"

definition empty_api :: upstream where
  "empty_api tr payload = Some []"

definition search_request :: json where
  "search_request = JObj [(''query'', JStr ''pizza in Rome'')]"

definition more_request :: json where
  "more_request = JObj [(''session_id'', JStr ''session_0'')]"

definition example_session :: "place_data list \<Rightarrow> json \<Rightarrow> int \<Rightarrow> session" where
  "example_session places token n =
     \<lparr> query = ''pizza in Rome'', all_places = places, next_page_token = token,
       page_count = n, filename = ''Rome_pizza_results.csv'' \<rparr>"

definition fresh_world :: "upstream \<Rightarrow> world" where
  \<comment> \<open>after the first page\<close>
  "fresh_world api = serve api initial_world [Search search_request]"

definition second_world :: "upstream \<Rightarrow> world" where
  \<comment> \<open>after the second page\<close>
  "second_world api = serve api initial_world [Search search_request, More more_request]"

definition third_world :: "upstream \<Rightarrow> world" where
  \<comment> \<open>after the third page\<close>
  "third_world api =
     serve api initial_world [Search search_request, More more_request, More more_request]"

definition empty_cli :: cli where
  "empty_cli =
     \<lparr> files = (\<lambda>name. None), denied = (\<lambda>name. False), stdout = [], requests = [] \<rparr>"

definition populated_cli :: cli where
  \<comment> \<open>the CSV file of the example after the first page has been saved\<close>
  "populated_cli =
     empty_cli\<lparr>files := (\<lambda>name. None)(''Rome_pizza_results.csv'' \<mapsto>
                           [Header fieldnames, row_of example_record])\<rparr>"

section \<open>The filename deriver on the example query\<close>

text \<open>
  Claim C3, as the code has it: for the query "HVAC contractor in Fuquay-Varina North Carolina"
  the location is everything after "in " up to the next comma, here the rest of the query,
  so \<open>generate_filename\<close> returns "Fuquay_Varina_North_Carolina_HVAC_contractor_results.csv".
\<close>

theorem generate_filename_example:
  "generate_filename ''HVAC contractor in Fuquay-Varina North Carolina'' =
     Inr ''Fuquay_Varina_North_Carolina_HVAC_contractor_results.csv''"
  by code_simp

text \<open>
  Claim C3 as stated fails: the result is not "Fuquay_Varina_HVAC_contractor_results.csv".
\<close>

theorem generate_filename_example_counterexample:
  "generate_filename ''HVAC contractor in Fuquay-Varina North Carolina'' \<noteq>
     Inr ''Fuquay_Varina_HVAC_contractor_results.csv''"
  by code_simp

section \<open>Lemmas on the served variant\<close>

lemma search_more_session:
  assumes "dict_get d ''session_id'' JNull = JStr sid" "sid \<noteq> []"
    "map_of (session_data w) sid = Some s"
  shows "search_more api w (JObj d) = more_for api w sid s"
  using assms by (simp add: search_more_def)

lemma more_for_response:
  assumes "more_for api w sid s = (More_Response places has_more total_count pc, w')"
  shows "\<exists>api_response.
           api (trace w @ [Sleep 3]) (payload_of (query s) (next_page_token s)) = Some api_response \<and>
           map_of (session_data w') sid =
             Some (s\<lparr>all_places := all_places s @ places,
                     next_page_token := dict_get api_response ''nextPageToken'' JNull,
                     page_count := page_count s + 1\<rparr>) \<and>
           pc = page_count s + 1 \<and>
           has_more = (truthy (dict_get api_response ''nextPageToken'' JNull) \<and> pc < 3)"
  using assms
  by (auto simp: more_for_def search_places_def Let_def update_Some_unfold
      split: if_splits option.splits sum.splits prod.splits)

lemma search_more_response:
  assumes "search_more api w data = (More_Response places has_more total_count pc, w')"
  shows "\<exists>sid s. session_of data = Some sid \<and> map_of (session_data w) sid = Some s \<and>
           more_for api w sid s = (More_Response places has_more total_count pc, w')"
  using assms
  by (auto simp: search_more_def session_of_def Let_def
      split: json.splits if_splits option.splits)

lemma search_response:
  assumes "search api w data = (Search_Response sid places has_more total_count fname, w')"
  shows "\<exists>d q api_response.
           data = JObj d \<and> dict_get d ''query'' (JStr []) = JStr q \<and>
           api (trace w) (payload_of (strip q) JNull) = Some api_response \<and>
           extract_place_data api_response = Inr places \<and>
           has_more = truthy (dict_get api_response ''nextPageToken'' JNull) \<and>
           map_of (session_data w') sid =
             Some \<lparr>query = strip q, all_places = places,
                   next_page_token = dict_get api_response ''nextPageToken'' JNull,
                   page_count = 1, filename = fname\<rparr>"
  using assms
  by (auto simp: search_def search_places_def Let_def update_Some_unfold
      split: json.splits if_splits option.splits sum.splits prod.splits)

lemma search_page_cap: "page_cap_ok w \<Longrightarrow> page_cap_ok (snd (search api w data))"
  by (auto simp: page_cap_ok_def search_def search_places_def Let_def update_conv'
      split: json.splits if_splits option.splits sum.splits prod.splits)

lemma more_for_page_cap:
  assumes ok: "page_cap_ok w" and s: "map_of (session_data w) sid = Some s"
  shows "page_cap_ok (snd (more_for api w sid s))"
proof -
  have b: "1 \<le> page_count s" using ok s by (simp add: page_cap_ok_def)
  show ?thesis
    using ok b
    by (auto simp: page_cap_ok_def more_for_def search_places_def Let_def update_conv'
        split: if_splits option.splits sum.splits prod.splits)
qed

lemma search_more_page_cap: "page_cap_ok w \<Longrightarrow> page_cap_ok (snd (search_more api w data))"
  by (auto simp: search_more_def Let_def more_for_page_cap
      split: json.splits if_splits option.splits)

lemma handle_page_cap: "page_cap_ok w \<Longrightarrow> page_cap_ok (snd (handle api w r))"
  by (cases r) (simp_all add: search_page_cap search_more_page_cap)

lemma serve_page_cap: "page_cap_ok w \<Longrightarrow> page_cap_ok (serve api w rs)"
  by (induction rs arbitrary: w) (simp_all add: handle_page_cap)

lemma initial_page_cap: "page_cap_ok initial_world"
  by (simp add: page_cap_ok_def initial_world_def)

lemma search_outcome:
  "(\<exists>sid places has_more total_count fname s.
      fst (search api w data) = Search_Response sid places has_more total_count fname \<and>
      map_of (session_data (snd (search api w data))) = (map_of (session_data w))(sid \<mapsto> s) \<and>
      all_places s = places \<and> places \<noteq> [] \<and> page_count s = 1) \<or>
   ((\<exists>status msg. fst (search api w data) = Error_Response status msg) \<or>
    (\<exists>e. fst (search api w data) = Exception_Response e)) \<and>
   session_data (snd (search api w data)) = session_data w"
  by (auto simp: search_def search_places_def Let_def update_conv'
      split: json.splits if_splits option.splits sum.splits prod.splits)

lemma more_for_outcome:
  "(\<exists>places has_more total_count pc s'.
      fst (more_for api w sid s) = More_Response places has_more total_count pc \<and>
      page_count s < 3 \<and> places \<noteq> [] \<and>
      map_of (session_data (snd (more_for api w sid s))) = (map_of (session_data w))(sid \<mapsto> s') \<and>
      all_places s' = all_places s @ places \<and> page_count s' = page_count s + 1) \<or>
   ((\<exists>status msg. fst (more_for api w sid s) = Error_Response status msg) \<or>
    (\<exists>e. fst (more_for api w sid s) = Exception_Response e)) \<and>
   session_data (snd (more_for api w sid s)) = session_data w"
  by (auto simp: more_for_def search_places_def Let_def update_conv'
      split: if_splits option.splits sum.splits prod.splits)

lemma search_more_outcome:
  "(\<exists>sid s. session_of data = Some sid \<and> map_of (session_data w) sid = Some s \<and>
      search_more api w data = more_for api w sid s) \<or>
   ((\<exists>status msg. fst (search_more api w data) = Error_Response status msg) \<or>
    (\<exists>e. fst (search_more api w data) = Exception_Response e)) \<and>
   session_data (snd (search_more api w data)) = session_data w"
  by (auto simp: search_more_def session_of_def Let_def
      split: json.splits if_splits option.splits)

lemma pages_ok_search:
  assumes "pages_ok w sid pages"
  shows "pages_ok (snd (search api w data)) sid
           (pages_step sid pages (Search data, fst (search api w data)))"
  using search_outcome [of api w data] assms
  by (auto simp: pages_ok_def split: option.splits if_splits)

lemma pages_ok_more_for:
  assumes "pages_ok w sid pages" and "session_of data = Some sid0"
    and "map_of (session_data w) sid0 = Some s"
  shows "pages_ok (snd (more_for api w sid0 s)) sid
           (pages_step sid pages (More data, fst (more_for api w sid0 s)))"
  using more_for_outcome [of api w sid0 s] assms
  by (auto simp: pages_ok_def split: option.splits if_splits)

lemma pages_ok_search_more:
  assumes "pages_ok w sid pages"
  shows "pages_ok (snd (search_more api w data)) sid
           (pages_step sid pages (More data, fst (search_more api w data)))"
  using search_more_outcome [of data w api]
proof (elim disjE exE conjE)
  fix sid0 s
  assume "session_of data = Some sid0" "map_of (session_data w) sid0 = Some s"
    "search_more api w data = more_for api w sid0 s"
  then show ?thesis using pages_ok_more_for [OF assms, of data sid0 s api] by simp
next
  fix status msg
  assume "fst (search_more api w data) = Error_Response status msg"
    "session_data (snd (search_more api w data)) = session_data w"
  then show ?thesis using assms by (simp add: pages_ok_def)
next
  fix e
  assume "fst (search_more api w data) = Exception_Response e"
    "session_data (snd (search_more api w data)) = session_data w"
  then show ?thesis using assms by (simp add: pages_ok_def)
qed

lemma pages_ok_handle:
  assumes "pages_ok w sid pages"
  shows "pages_ok (snd (handle api w r)) sid (pages_step sid pages (r, fst (handle api w r)))"
proof (cases r)
  case (Search data)
  then show ?thesis using pages_ok_search [OF assms] by simp
next
  case (More data)
  then show ?thesis using pages_ok_search_more [OF assms] by simp
next
  case (Download session_id)
  then show ?thesis using assms by simp
qed

lemma pages_ok_serve:
  "pages_ok w sid pages \<Longrightarrow>
     pages_ok (serve api w rs) sid (foldl (pages_step sid) pages (serve_log api w rs))"
proof (induction rs arbitrary: w pages)
  case Nil
  then show ?case by simp
next
  case (Cons r rs)
  from pages_ok_handle [OF Cons.prems, of api r]
  have "pages_ok (serve api (snd (handle api w r)) rs) sid
     (foldl (pages_step sid) (pages_step sid pages (r, fst (handle api w r)))
        (serve_log api (snd (handle api w r)) rs))"
    by (rule Cons.IH)
  then show ?case by simp
qed

lemma pages_ok_initial: "pages_ok initial_world sid []"
  by (simp add: pages_ok_def initial_world_def)

lemma pages_of_run:
  "pages_ok (serve api initial_world rs) sid (pages_of sid (serve_log api initial_world rs))"
  unfolding pages_of_def using pages_ok_initial by (rule pages_ok_serve)

section \<open>Lemmas on the non-served variant\<close>

lemma requests_print [simp]: "requests (print l st) = requests st"
  by (simp add: print_def)

lemma files_print [simp]: "files (print l st) = files st"
  by (simp add: print_def)

lemma denied_print [simp]: "denied (print l st) = denied st"
  by (simp add: print_def)

lemma requests_sleep [simp]: "requests (sleep n st) = requests st @ [Sleep n]"
  by (simp add: sleep_def)

lemma files_sleep [simp]: "files (sleep n st) = files st"
  by (simp add: sleep_def)

lemma requests_save_to_csv [simp]: "requests (snd (save_to_csv st ps name a)) = requests st"
  by (simp add: save_to_csv_def Let_def)

lemma requests_of_append [simp]: "requests_of (xs @ ys) = requests_of xs @ requests_of ys"
  by (simp add: requests_of_def)

lemma requests_of_Sleep [simp]: "requests_of [Sleep n] = []"
  by (simp add: requests_of_def)

lemma requests_of_Post [simp]: "requests_of [Post p] = [Post p]"
  by (simp add: requests_of_def)

lemma requests_search_places_cli [simp]:
  "requests (snd (search_places_cli api st q tok)) = requests st @ [Post (payload_of q tok)]"
  by (simp add: search_places_cli_def search_places_def Let_def split: option.splits)

lemma files_search_places_cli [simp]:
  "files (snd (search_places_cli api st q tok)) = files st"
  by (simp add: search_places_cli_def search_places_def Let_def split: option.splits)

lemma fst_extract_place_data_cli [simp]:
  "fst (extract_place_data_cli st r) = extract_place_data r"
  by (simp add: extract_place_data_cli_def extract_place_data_def split: option.splits)

lemma requests_extract_place_data_cli [simp]:
  "requests (snd (extract_place_data_cli st r)) = requests st"
  by (simp add: extract_place_data_cli_def split: option.splits)

lemma files_extract_place_data_cli [simp]:
  "files (snd (extract_place_data_cli st r)) = files st"
  by (simp add: extract_place_data_cli_def split: option.splits)

lemma requests_final_summary [simp]: "requests (final_summary ps pc st) = requests st"
  by (simp add: final_summary_def)

lemma files_final_summary [simp]: "files (final_summary ps pc st) = files st"
  by (simp add: final_summary_def)

lemma save_to_csv_append_rows:
  assumes "files st name = Some rows" and "rows \<noteq> []"
    and "save_to_csv st ps name True = (Inr u, st')"
  shows "files st' name = Some (rows @ map row_of ps)"
  using assms by (auto simp: save_to_csv_def tell_append_def Let_def split: if_splits)

lemma save_to_csv_write_rows:
  assumes "ps \<noteq> []" and "save_to_csv st ps name False = (Inr u, st')"
  shows "files st' name = Some (Header fieldnames # map row_of ps)"
  using assms by (auto simp: save_to_csv_def Let_def split: if_splits)

lemma requests_announce_page [simp]:
  "requests (announce_page pc st) = requests st @ [Sleep 3]"
  by (simp add: announce_page_def)

lemma files_announce_page [simp]: "files (announce_page pc st) = files st"
  by (simp add: announce_page_def)

lemma requests_announce_search [simp]: "requests (announce_search q name st) = requests st"
  by (simp add: announce_search_def)

lemma files_announce_search [simp]: "files (announce_search q name st) = files st"
  by (simp add: announce_search_def)

lemma paginate_step:
  obtains r st1 where
    "search_places_cli api (announce_page pc st) q tok = (r, st1)"
    and "requests_of (requests st1) = requests_of (requests st) @ [Post (payload_of q tok)]"
    and "files st1 = files st"
proof -
  obtain r st1 where sp: "search_places_cli api (announce_page pc st) q tok = (r, st1)"
    by (cases "search_places_cli api (announce_page pc st) q tok")
  have "requests (snd (r, st1)) = requests (announce_page pc st) @ [Post (payload_of q tok)]"
    unfolding sp [symmetric] by (rule requests_search_places_cli)
  then have "requests_of (requests st1) = requests_of (requests st) @ [Post (payload_of q tok)]"
    by (simp add: requests_of_def)
  moreover have "files (snd (r, st1)) = files (announce_page pc st)"
    unfolding sp [symmetric] by (rule files_search_places_cli)
  then have "files st1 = files st" by simp
  ultimately show ?thesis using sp that by blast
qed

lemma paginate_bounds:
  assumes "1 \<le> pc" and "pc \<le> 3"
  shows "(case fst (paginate api q name answers st (ps, tok, pc)) of
            Inr (ps', tok', pc') \<Rightarrow> pc \<le> pc' \<and> pc' \<le> 3
          | Inl x \<Rightarrow> True) \<and>
         length (requests_of (requests (snd (paginate api q name answers st (ps, tok, pc))))) + nat pc
           \<le> length (requests_of (requests st)) + 3"
  using assms
proof (induction answers arbitrary: st ps tok pc)
  case Nil
  then show ?case by (auto simp: nat_le_iff)
next
  case (Cons answer answers)
  show ?case
  proof (cases "truthy tok \<and> pc < 3 \<and> answer")
    case False
    with Cons.prems show ?thesis by (auto simp: nat_le_iff)
  next
    case True
    then have c: "truthy tok" "pc < 3" by simp_all
    from paginate_step [where api = api and pc = pc and st = st and q = q and tok = tok]
    obtain r st1 where
      sp: "search_places_cli api (announce_page pc st) q tok = (r, st1)"
      and st1: "requests_of (requests st1) = requests_of (requests st) @ [Post (payload_of q tok)]"
      by metis
    have npc: "nat pc \<le> 2" "nat (pc + 1) = nat pc + 1"
      using True Cons.prems by auto
    show ?thesis
    proof (cases r)
      case (Inl x)
      with True sp st1 npc Cons.prems show ?thesis by simp
    next
      case (Inr additional_response)
      obtain e st2 where ex: "extract_place_data_cli st1 additional_response = (e, st2)"
        by (cases "extract_place_data_cli st1 additional_response")
      have st2: "requests st2 = requests st1"
        using requests_extract_place_data_cli [of st1 additional_response] by (simp add: ex)
      show ?thesis
      proof (cases e)
        case (Inl err)
        with True sp st1 st2 npc Inr ex Cons.prems show ?thesis by simp
      next
        case e: (Inr additional)
        show ?thesis
        proof (cases "additional = []")
          case True
          have "paginate api q name answers (print ''No additional places found'' st2) (ps, JNull, pc)
            = (Inr (ps, JNull, pc), print ''No additional places found'' st2)"
            by (cases answers) simp_all
          with \<open>truthy tok \<and> pc < 3 \<and> answer\<close> True sp st1 st2 npc Inr ex e Cons.prems
          show ?thesis by simp
        next
          case False
          obtain r3 st3 where sv: "save_to_csv st2 additional name True = (r3, st3)"
            by (cases "save_to_csv st2 additional name True")
          have st3: "requests st3 = requests st2"
            using requests_save_to_csv [of st2 additional name True] by (simp add: sv)
          show ?thesis
          proof (cases r3)
            case (Inl x)
            with \<open>truthy tok \<and> pc < 3 \<and> answer\<close> False sp st1 st2 st3 npc sv Inr ex e Cons.prems
            show ?thesis by simp
          next
            case r3: (Inr u)
            let ?tok = "dict_get additional_response ''nextPageToken'' JNull"
            let ?res = "paginate api q name answers st3 (ps @ additional, ?tok, pc + 1)"
            have ih: "(case fst ?res of
               Inr (ps', tok', pc') \<Rightarrow> pc + 1 \<le> pc' \<and> pc' \<le> 3 | Inl x \<Rightarrow> True) \<and>
               length (requests_of (requests (snd ?res))) + nat (pc + 1)
               \<le> length (requests_of (requests st3)) + 3"
              by (rule Cons.IH) (use Cons.prems \<open>truthy tok \<and> pc < 3 \<and> answer\<close> in auto)
            have eq: "paginate api q name (answer # answers) st (ps, tok, pc) = ?res"
              using \<open>truthy tok \<and> pc < 3 \<and> answer\<close> False sp sv Inr ex e r3 by simp
            show ?thesis
              unfolding eq using ih st1 st2 st3 npc Cons.prems
              by (auto split: sum.splits prod.splits)
          qed
        qed
      qed
    qed
  qed
qed

lemma paginate_rows:
  assumes "files st name = Some (Header fieldnames # map row_of ps)"
    and "paginate api q name answers st (ps, tok, pc) = (Inr (ps', tok', pc'), st')"
  shows "files st' name = Some (Header fieldnames # map row_of ps')"
  using assms
proof (induction answers arbitrary: st ps tok pc)
  case Nil
  then show ?case by (auto split: if_splits)
next
  case (Cons answer answers)
  show ?case
  proof (cases "truthy tok \<and> pc < 3 \<and> answer")
    case False
    with Cons.prems show ?thesis by (auto split: if_splits)
  next
    case True
    then have c: "truthy tok" "pc < 3" by simp_all
    from paginate_step [where api = api and pc = pc and st = st and q = q and tok = tok]
    obtain r st1 where
      sp: "search_places_cli api (announce_page pc st) q tok = (r, st1)"
      and st1: "files st1 = files st"
      by metis
    obtain e st2 where ex0: "extract_place_data_cli st1 (case r of Inr x \<Rightarrow> x) = (e, st2)"
      by (cases "extract_place_data_cli st1 (case r of Inr x \<Rightarrow> x)")
    from Cons.prems(2) True sp ex0 obtain additional_response additional where
      r: "r = Inr additional_response" and e: "e = Inr additional"
      by (auto split: sum.splits)
    have ex: "extract_place_data_cli st1 additional_response = (Inr additional, st2)"
      using ex0 r e by simp
    have st2: "files st2 = files st1"
      using files_extract_place_data_cli [of st1 additional_response] by (simp add: ex)
    show ?thesis
    proof (cases "additional = []")
      case True
      with Cons.prems(2) \<open>truthy tok \<and> pc < 3 \<and> answer\<close> sp r ex
      have "paginate api q name answers (print ''No additional places found'' st2) (ps, JNull, pc)
              = (Inr (ps', tok', pc'), st')" by simp
      moreover have "files (print ''No additional places found'' st2) name
              = Some (Header fieldnames # map row_of ps)"
        using Cons.prems(1) st1 st2 by simp
      ultimately show ?thesis by (rule Cons.IH [rotated])
    next
      case False
      obtain r3 st3 where sv: "save_to_csv st2 additional name True = (r3, st3)"
        by (cases "save_to_csv st2 additional name True")
      from Cons.prems(2) \<open>truthy tok \<and> pc < 3 \<and> answer\<close> sp r ex False sv obtain u where
        r3: "r3 = Inr u" by (auto split: sum.splits)
      have "files st3 name = Some ((Header fieldnames # map row_of ps) @ map row_of additional)"
        by (rule save_to_csv_append_rows [of st2]) (use Cons.prems(1) st1 st2 sv r3 in auto)
      then have f3: "files st3 name = Some (Header fieldnames # map row_of (ps @ additional))"
        by simp
      have "paginate api q name answers st3
              (ps @ additional, dict_get additional_response ''nextPageToken'' JNull, pc + 1)
              = (Inr (ps', tok', pc'), st')"
        using Cons.prems(2) \<open>truthy tok \<and> pc < 3 \<and> answer\<close> sp r ex False sv r3 by simp
      with f3 show ?thesis by (rule Cons.IH)
    qed
  qed
qed

lemma main_Some:
  assumes "main api st q answers = (Inr (Some (name, places, tok, pc)), st')"
  shows "\<exists>api_response first_page st1 st2 st3 st4 u.
           generate_filename q = Inr name \<and>
           search_places_cli api (announce_search q name st) q JNull = (Inr api_response, st1) \<and>
           extract_place_data_cli st1 api_response = (Inr first_page, st2) \<and> first_page \<noteq> [] \<and>
           save_to_csv st2 first_page name False = (Inr u, st3) \<and>
           paginate api q name answers st3
             (first_page, dict_get api_response ''nextPageToken'' JNull, 1)
             = (Inr (places, tok, pc), st4) \<and>
           files st' = files st4"
  using assms
  by (auto simp: main_def split: sum.splits prod.splits if_splits)

lemma main_page_count:
  assumes "main api st q answers = (Inr (Some (name, places, tok, pc)), st')"
  shows "1 \<le> pc \<and> pc \<le> 3"
proof -
  from main_Some [OF assms] obtain api_response first_page st3 st4 where
    p: "paginate api q name answers st3
             (first_page, dict_get api_response ''nextPageToken'' JNull, 1)
             = (Inr (places, tok, pc), st4)" by blast
  show ?thesis
    using paginate_bounds [of 1 api q name answers st3 first_page
        "dict_get api_response ''nextPageToken'' JNull"]
    by (simp add: p)
qed

lemma main_rows:
  assumes "main api st q answers = (Inr (Some (name, places, tok, pc)), st')"
  shows "files st' name = Some (Header fieldnames # map row_of places)"
proof -
  from main_Some [OF assms] obtain api_response first_page st2 st3 st4 u where
    sv: "save_to_csv st2 first_page name False = (Inr u, st3)" and ne: "first_page \<noteq> []" and
    p: "paginate api q name answers st3
             (first_page, dict_get api_response ''nextPageToken'' JNull, 1)
             = (Inr (places, tok, pc), st4)" and f: "files st' = files st4" by blast
  have "files st3 name = Some (Header fieldnames # map row_of first_page)"
    using ne sv by (rule save_to_csv_write_rows)
  then have "files st4 name = Some (Header fieldnames # map row_of places)"
    using p by (rule paginate_rows)
  then show ?thesis by (simp add: f)
qed

lemma main_requests:
  "length (requests_of (requests (snd (main api st q answers))))
     \<le> length (requests_of (requests st)) + 3"
proof (cases "generate_filename q")
  case (Inl e)
  then show ?thesis by (simp add: main_def)
next
  case name: (Inr name)
  obtain r st1 where sp: "search_places_cli api (announce_search q name st) q JNull = (r, st1)"
    by (cases "search_places_cli api (announce_search q name st) q JNull")
  have "requests (snd (r, st1)) = requests (announce_search q name st) @ [Post (payload_of q JNull)]"
    unfolding sp [symmetric] by (rule requests_search_places_cli)
  then have st1: "requests_of (requests st1) = requests_of (requests st) @ [Post (payload_of q JNull)]"
    by (simp add: requests_of_def)
  show ?thesis
  proof (cases r)
    case (Inl x)
    then show ?thesis using name sp st1 by (simp add: main_def)
  next
    case (Inr api_response)
    obtain e st2 where ex: "extract_place_data_cli st1 api_response = (e, st2)"
      by (cases "extract_place_data_cli st1 api_response")
    have st2: "requests st2 = requests st1"
      using requests_extract_place_data_cli [of st1 api_response] by (simp add: ex)
    show ?thesis
    proof (cases e)
      case (Inl err)
      then show ?thesis using name sp st1 st2 Inr ex by (simp add: main_def)
    next
      case e: (Inr first_page)
      show ?thesis
      proof (cases "first_page = []")
        case True
        then show ?thesis using name sp st1 st2 Inr ex e by (simp add: main_def)
      next
        case False
        obtain r3 st3 where sv: "save_to_csv st2 first_page name False = (r3, st3)"
          by (cases "save_to_csv st2 first_page name False")
        have st3: "requests st3 = requests st2"
          using requests_save_to_csv [of st2 first_page name False] by (simp add: sv)
        show ?thesis
        proof (cases r3)
          case (Inl x)
          then show ?thesis using name sp st1 st2 st3 Inr ex e False sv by (simp add: main_def)
        next
          case r3: (Inr u)
          let ?res = "paginate api q name answers st3
             (first_page, dict_get api_response ''nextPageToken'' JNull, 1)"
          have b: "length (requests_of (requests (snd ?res))) + nat 1
                     \<le> length (requests_of (requests st3)) + 3"
            using paginate_bounds [of 1 api q name answers st3 first_page
                "dict_get api_response ''nextPageToken'' JNull"] by simp
          have "requests (snd (main api st q answers)) = requests (snd ?res)"
            using name sp Inr ex e False sv r3
            by (auto simp: main_def split: sum.splits prod.splits)
          then show ?thesis using b st1 st2 st3 by simp
        qed
      qed
    qed
  qed
qed


section \<open>Lemmas on the regular expression of the location\<close>











declare match_here.simps(2) [simp del]





















section \<open>The page cap\<close>

text \<open>
  Claim C1: a session never accumulates more than 3 pages. In the served variant, for every
  run of the server from its start, whatever the requests and whatever the upstream
  answers, also when it keeps reporting a continuation token: no session is delivered more
  than 3 pages; the records of every session of the store are exactly the pages delivered
  to it, in order, and its page count is their number, between 1 and 3. A continuation
  page without records is no page of the session; such requests are not bounded. The
  non-served variant ends with a page count between 1 and 3 and sends at most 3 requests
  upstream.
\<close>

theorem page_count_never_exceeds_cap:
  "(\<forall>sid. length (pages_of sid (serve_log api initial_world rs)) \<le> 3) \<and>
   (\<forall>sid s. map_of (session_data (serve api initial_world rs)) sid = Some s \<longrightarrow>
       all_places s = concat (pages_of sid (serve_log api initial_world rs)) \<and>
       page_count s = int (length (pages_of sid (serve_log api initial_world rs))) \<and>
       1 \<le> page_count s \<and> page_count s \<le> 3) \<and>
   (\<forall>name places token pc st'.
       main api st q answers = (Inr (Some (name, places, token, pc)), st') \<longrightarrow>
       1 \<le> pc \<and> pc \<le> 3) \<and>
   length (requests_of (requests (snd (main api st q answers))))
     \<le> length (requests_of (requests st)) + 3"
proof (intro conjI allI impI)
  fix sid
  show "length (pages_of sid (serve_log api initial_world rs)) \<le> 3"
    using pages_of_run [of api rs sid] by (simp add: pages_ok_def)
next
  fix sid s
  assume s: "map_of (session_data (serve api initial_world rs)) sid = Some s"
  then show "all_places s = concat (pages_of sid (serve_log api initial_world rs))"
    using pages_of_run [of api rs sid] by (simp add: pages_ok_def)
  from s show "page_count s = int (length (pages_of sid (serve_log api initial_world rs)))"
    using pages_of_run [of api rs sid] by (simp add: pages_ok_def)
  have "page_cap_ok (serve api initial_world rs)"
    using initial_page_cap by (rule serve_page_cap)
  with s show "1 \<le> page_count s" and "page_count s \<le> 3"
    by (simp_all add: page_cap_ok_def)
next
  fix name places token pc st'
  assume "main api st q answers = (Inr (Some (name, places, token, pc)), st')"
  then show "1 \<le> pc" and "pc \<le> 3"
    using main_page_count by blast+
next
  show "length (requests_of (requests (snd (main api st q answers))))
     \<le> length (requests_of (requests st)) + 3"
    by (rule main_requests)
qed

text \<open>
  Witness for C1: an upstream that reports a token with every page, a search and four
  requests for more, and a user who answers yes three times.
\<close>

theorem page_count_never_exceeds_cap_witness:
  "map_of (session_data (serve endless_api initial_world
       [Search search_request, More more_request, More more_request, More more_request,
        More more_request])) ''session_0''
     = Some (example_session [example_record, example_record, example_record] (JStr ''t'') 3) \<and>
   pages_of ''session_0'' (serve_log endless_api initial_world
       [Search search_request, More more_request, More more_request, More more_request,
        More more_request])
     = [[example_record], [example_record], [example_record]] \<and>
   all_places (example_session [example_record, example_record, example_record] (JStr ''t'') 3)
     = concat [[example_record], [example_record], [example_record]] \<and>
   page_count (example_session [example_record, example_record, example_record] (JStr ''t'') 3) \<le> 3 \<and>
   fst (main endless_api empty_cli ''pizza in Rome'' [True, True, True])
     = Inr (Some (''Rome_pizza_results.csv'', [example_record, example_record, example_record],
                  JStr ''t'', 3)) \<and>
   length (requests_of (requests (snd (main endless_api empty_cli ''pizza in Rome''
       [True, True, True])))) \<le> 3"
proof -
  let ?rs = "[Search search_request, More more_request, More more_request, More more_request,
        More more_request]"
  let ?s = "example_session [example_record, example_record, example_record] (JStr ''t'') 3"
  let ?m = "main endless_api empty_cli ''pizza in Rome'' [True, True, True]"
  note cap = page_count_never_exceeds_cap [of endless_api ?rs empty_cli "''pizza in Rome''"
      "[True, True, True]"]
  have h1: "map_of (session_data (serve endless_api initial_world ?rs)) ''session_0'' = Some ?s"
    by code_simp
  have p: "pages_of ''session_0'' (serve_log endless_api initial_world ?rs)
      = [[example_record], [example_record], [example_record]]"
    by code_simp
  have h2: "fst ?m = Inr (Some (''Rome_pizza_results.csv'',
      [example_record, example_record, example_record], JStr ''t'', 3))"
    by code_simp
  then have h3: "?m = (Inr (Some (''Rome_pizza_results.csv'',
      [example_record, example_record, example_record], JStr ''t'', 3)), snd ?m)"
    by (metis prod.collapse)
  have "all_places ?s = concat (pages_of ''session_0'' (serve_log endless_api initial_world ?rs))
      \<and> page_count ?s \<le> 3"
    using cap h1 by blast
  then have "all_places ?s = concat [[example_record], [example_record], [example_record]]
      \<and> page_count ?s \<le> 3"
    by (simp only: p)
  moreover have "(1::int) \<le> 3 \<and> (3::int) \<le> 3" using cap h3 by blast
  moreover have "length (requests_of (requests (snd ?m))) \<le> 3"
    using cap by (simp add: empty_cli_def requests_of_def)
  ultimately show ?thesis using h1 h2 p by blast
qed

section \<open>The guards of \<open>search_more\<close>\<close>

text \<open>
  Claim C2, as the code has it: on an existing session, \<open>search_more\<close> answers
  \<open>NoMoreResults\<close> when the stored token is absent or empty, whatever the page count, and
  \<open>PageLimitReached\<close> when the token is present and the page count is at least 3. In both
  cases the world is unchanged: no request is sent upstream and there is no delay.
\<close>

theorem fetch_next_guards:
  assumes "dict_get d ''session_id'' JNull = JStr sid" and "sid \<noteq> []"
    and "map_of (session_data w) sid = Some s"
  shows "(\<not> truthy (next_page_token s) \<longrightarrow> search_more api w (JObj d) = (NoMoreResults, w)) \<and>
         (truthy (next_page_token s) \<and> page_count s \<ge> 3 \<longrightarrow>
            search_more api w (JObj d) = (PageLimitReached, w))"
  unfolding search_more_session [OF assms]
  by (simp add: more_for_def NoMoreResults_def PageLimitReached_def)

text \<open>
  Witness for C2: after three pages, the session of an upstream that has stopped reporting a
  token, and the session of an upstream that still reports one.
\<close>

theorem fetch_next_guards_witness:
  "search_more finite_api (third_world finite_api) more_request
     = (NoMoreResults, third_world finite_api) \<and>
   search_more endless_api (third_world endless_api) more_request
     = (PageLimitReached, third_world endless_api)"
proof -
  have d: "dict_get [(''session_id'', JStr ''session_0'')] ''session_id'' JNull = JStr ''session_0''"
    by (simp add: dict_get_def)
  have n: "''session_0'' \<noteq> []" by simp
  have s1: "map_of (session_data (third_world finite_api)) ''session_0''
      = Some (example_session [example_record, example_record, example_record] JNull 3)"
    by code_simp
  have s2: "map_of (session_data (third_world endless_api)) ''session_0''
      = Some (example_session [example_record, example_record, example_record] (JStr ''t'') 3)"
    by code_simp
  show ?thesis
    using
      fetch_next_guards [of "[(''session_id'', JStr ''session_0'')]" "''session_0''"
        "third_world finite_api" _ finite_api, OF d n s1]
      fetch_next_guards [of "[(''session_id'', JStr ''session_0'')]" "''session_0''"
        "third_world endless_api" _ endless_api, OF d n s2]
    by (simp add: more_request_def example_session_def)
qed

text \<open>
  Claim C2 as stated fails on a session with three pages and no token: the page count is at
  least 3, and the answer is not \<open>PageLimitReached\<close>, since the token is tested first.
\<close>

theorem fetch_next_guards_counterexample:
  "map_of (session_data (third_world finite_api)) ''session_0''
     = Some (example_session [example_record, example_record, example_record] JNull 3) \<and>
   3 \<le> page_count (example_session [example_record, example_record, example_record] JNull 3) \<and>
   fst (search_more finite_api (third_world finite_api) more_request) \<noteq> PageLimitReached"
  by code_simp

section \<open>Pages without records\<close>

text \<open>
  Claim C8: when no record is extracted from the first page, \<open>search\<close> answers
  \<open>NoResultsError\<close>, status 404, and the session store is unchanged.
\<close>

theorem search_no_results:
  assumes "dict_get d ''query'' (JStr []) = JStr q" and "strip q \<noteq> []"
    and "api (trace w) (payload_of (strip q) JNull) = Some api_response"
    and "extract_place_data api_response = Inr []"
  shows "fst (search api w (JObj d)) = NoResultsError \<and>
         session_data (snd (search api w (JObj d))) = session_data w"
  using assms by (simp add: search_def search_places_def NoResultsError_def)

text \<open>Witness for C8: an upstream whose response has no place list.\<close>

theorem search_no_results_witness:
  "fst (search empty_api initial_world search_request) = NoResultsError \<and>
   session_data (snd (search empty_api initial_world search_request)) = session_data initial_world"
proof -
  have d: "dict_get [(''query'', JStr ''pizza in Rome'')] ''query'' (JStr []) = JStr ''pizza in Rome''"
    by (simp add: dict_get_def)
  have q: "strip ''pizza in Rome'' \<noteq> []" by code_simp
  have a: "empty_api (trace initial_world) (payload_of (strip ''pizza in Rome'') JNull) = Some []"
    by (simp add: empty_api_def)
  have e: "extract_place_data [] = Inr []" by (simp add: extract_place_data_def)
  show ?thesis
    unfolding search_request_def
    by (rule search_no_results [of "[(''query'', JStr ''pizza in Rome'')]" "''pizza in Rome''"
        empty_api initial_world "[]", OF d q a e])
qed

text \<open>
  Claim C9: when no record is extracted from a continuation page, \<open>search_more\<close> answers
  with an error and the session store is unchanged, so the records, the token and the page
  count of the session keep their values.
\<close>

theorem search_more_empty_page:
  assumes "dict_get d ''session_id'' JNull = JStr sid" and "sid \<noteq> []"
    and "map_of (session_data w) sid = Some s"
    and "truthy (next_page_token s)" and "page_count s < 3"
    and "api (trace w @ [Sleep 3]) (payload_of (query s) (next_page_token s)) = Some api_response"
    and "extract_place_data api_response = Inr []"
  shows "fst (search_more api w (JObj d)) = Error_Response 404 ''No additional places found'' \<and>
         session_data (snd (search_more api w (JObj d))) = session_data w \<and>
         map_of (session_data (snd (search_more api w (JObj d)))) sid = Some s"
  unfolding search_more_session [OF assms(1-3)]
  using assms(3-) by (simp add: more_for_def search_places_def)

text \<open>Witness for C9: an upstream with a token on its first page and nothing behind it.\<close>

theorem search_more_empty_page_witness:
  "fst (search_more one_page_api (fresh_world one_page_api) more_request)
     = Error_Response 404 ''No additional places found'' \<and>
   session_data (snd (search_more one_page_api (fresh_world one_page_api) more_request))
     = session_data (fresh_world one_page_api) \<and>
   map_of (session_data (snd (search_more one_page_api (fresh_world one_page_api) more_request)))
       ''session_0''
     = Some (example_session [example_record] (JStr ''t'') 1)"
proof -
  let ?s = "example_session [example_record] (JStr ''t'') 1"
  have d: "dict_get [(''session_id'', JStr ''session_0'')] ''session_id'' JNull = JStr ''session_0''"
    by (simp add: dict_get_def)
  have n: "''session_0'' \<noteq> []" by simp
  have s: "map_of (session_data (fresh_world one_page_api)) ''session_0'' = Some ?s"
    by code_simp
  have t: "truthy (next_page_token ?s)" by (simp add: example_session_def)
  have p: "page_count ?s < 3" by (simp add: example_session_def)
  have a: "one_page_api (trace (fresh_world one_page_api) @ [Sleep 3])
             (payload_of (query ?s) (next_page_token ?s)) = Some []"
    by code_simp
  have e: "extract_place_data [] = Inr []" by (simp add: extract_place_data_def)
  show ?thesis
    unfolding more_request_def
    by (rule search_more_empty_page [of "[(''session_id'', JStr ''session_0'')]" "''session_0''"
        "fresh_world one_page_api" ?s one_page_api "[]", OF d n s t p a e])
qed

section \<open>The flag \<open>has_more\<close>\<close>

text \<open>
  Claim C10: in a successful answer of \<open>search_more\<close>, \<open>has_more\<close> holds exactly when the
  new upstream response, the one to the request with the query and the token of the session
  that the request names, carries a continuation token and the page count after the update
  is less than 3. In a successful answer of \<open>search\<close>, \<open>has_more\<close> holds exactly when the
  first response, the one to the request with the query of the request body, carries a
  continuation token; the page count is not looked at. That response is also the one whose
  places are returned and whose token is stored in the new session.
\<close>

theorem has_more_flags:
  "(search_more api w data = (More_Response places has_more total_count pc, w') \<longrightarrow>
      (\<exists>sid s api_response.
          session_of data = Some sid \<and>
          map_of (session_data w) sid = Some s \<and>
          api (trace w @ [Sleep 3]) (payload_of (query s) (next_page_token s)) = Some api_response \<and>
          map_option page_count (map_of (session_data w') sid) = Some pc \<and>
          pc = page_count s + 1 \<and>
          has_more = (truthy (dict_get api_response ''nextPageToken'' JNull) \<and> pc < 3))) \<and>
   (search api w data = (Search_Response session_id places has_more total_count fname, w') \<longrightarrow>
      (\<exists>d q api_response.
          data = JObj d \<and> dict_get d ''query'' (JStr []) = JStr q \<and>
          api (trace w) (payload_of (strip q) JNull) = Some api_response \<and>
          extract_place_data api_response = Inr places \<and>
          map_option next_page_token (map_of (session_data w') session_id)
            = Some (dict_get api_response ''nextPageToken'' JNull) \<and>
          has_more = truthy (dict_get api_response ''nextPageToken'' JNull)))"
proof (intro conjI impI)
  assume "search_more api w data = (More_Response places has_more total_count pc, w')"
  then obtain sid s where n: "session_of data = Some sid"
    and s: "map_of (session_data w) sid = Some s"
    and m: "more_for api w sid s = (More_Response places has_more total_count pc, w')"
    using search_more_response by blast
  from more_for_response [OF m] obtain api_response where
    r: "api (trace w @ [Sleep 3]) (payload_of (query s) (next_page_token s)) = Some api_response"
      "map_of (session_data w') sid =
         Some (s\<lparr>all_places := all_places s @ places,
                 next_page_token := dict_get api_response ''nextPageToken'' JNull,
                 page_count := page_count s + 1\<rparr>)"
      "pc = page_count s + 1"
      "has_more = (truthy (dict_get api_response ''nextPageToken'' JNull) \<and> pc < 3)"
    by blast
  have "session_of data = Some sid \<and>
          map_of (session_data w) sid = Some s \<and>
          api (trace w @ [Sleep 3]) (payload_of (query s) (next_page_token s)) = Some api_response \<and>
          map_option page_count (map_of (session_data w') sid) = Some pc \<and>
          pc = page_count s + 1 \<and>
          has_more = (truthy (dict_get api_response ''nextPageToken'' JNull) \<and> pc < 3)"
    using n s r by simp
  then show "\<exists>sid s api_response.
          session_of data = Some sid \<and>
          map_of (session_data w) sid = Some s \<and>
          api (trace w @ [Sleep 3]) (payload_of (query s) (next_page_token s)) = Some api_response \<and>
          map_option page_count (map_of (session_data w') sid) = Some pc \<and>
          pc = page_count s + 1 \<and>
          has_more = (truthy (dict_get api_response ''nextPageToken'' JNull) \<and> pc < 3)"
    by blast
next
  assume "search api w data = (Search_Response session_id places has_more total_count fname, w')"
  from search_response [OF this] obtain d q api_response where
    r: "data = JObj d" "dict_get d ''query'' (JStr []) = JStr q"
      "api (trace w) (payload_of (strip q) JNull) = Some api_response"
      "extract_place_data api_response = Inr places"
      "has_more = truthy (dict_get api_response ''nextPageToken'' JNull)"
      "map_of (session_data w') session_id =
             Some \<lparr>query = strip q, all_places = places,
                   next_page_token = dict_get api_response ''nextPageToken'' JNull,
                   page_count = 1, filename = fname\<rparr>"
    by blast
  have "data = JObj d \<and> dict_get d ''query'' (JStr []) = JStr q \<and>
          api (trace w) (payload_of (strip q) JNull) = Some api_response \<and>
          extract_place_data api_response = Inr places \<and>
          map_option next_page_token (map_of (session_data w') session_id)
            = Some (dict_get api_response ''nextPageToken'' JNull) \<and>
          has_more = truthy (dict_get api_response ''nextPageToken'' JNull)"
    using r by simp
  then show "\<exists>d q api_response.
          data = JObj d \<and> dict_get d ''query'' (JStr []) = JStr q \<and>
          api (trace w) (payload_of (strip q) JNull) = Some api_response \<and>
          extract_place_data api_response = Inr places \<and>
          map_option next_page_token (map_of (session_data w') session_id)
            = Some (dict_get api_response ''nextPageToken'' JNull) \<and>
          has_more = truthy (dict_get api_response ''nextPageToken'' JNull)"
    by blast
qed

text \<open>
  Witness for C10: with an upstream that always reports a token, the first page has
  \<open>has_more\<close> set and the third page has it cleared.
\<close>

theorem has_more_flags_witness:
  "search_more endless_api (second_world endless_api) more_request
     = (More_Response [example_record] False 3 3, third_world endless_api) \<and>
   search endless_api initial_world search_request
     = (Search_Response ''session_0'' [example_record] True 1 ''Rome_pizza_results.csv'',
        fresh_world endless_api) \<and>
   (\<exists>api_response.
      endless_api (trace (second_world endless_api) @ [Sleep 3])
        (payload_of ''pizza in Rome'' (JStr ''t'')) = Some api_response \<and>
      False = (truthy (dict_get api_response ''nextPageToken'' JNull) \<and> (3::int) < 3)) \<and>
   (\<exists>api_response.
      endless_api (trace initial_world) (payload_of (strip ''pizza in Rome'') JNull)
        = Some api_response \<and>
      extract_place_data api_response = Inr [example_record] \<and>
      True = truthy (dict_get api_response ''nextPageToken'' JNull))"
proof -
  have m: "search_more endless_api (second_world endless_api) more_request
     = (More_Response [example_record] False 3 3, third_world endless_api)"
    by code_simp
  have s: "search endless_api initial_world search_request
     = (Search_Response ''session_0'' [example_record] True 1 ''Rome_pizza_results.csv'',
        fresh_world endless_api)"
    by code_simp
  have q: "map_of (session_data (second_world endless_api)) sid = Some s \<Longrightarrow>
      query s = ''pizza in Rome'' \<and> next_page_token s = JStr ''t''" for sid s
  proof -
    have "session_data (second_world endless_api)
        = [(''session_0'', example_session [example_record, example_record] (JStr ''t'') 2)]"
      by code_simp
    then show "map_of (session_data (second_world endless_api)) sid = Some s \<Longrightarrow>
      query s = ''pizza in Rome'' \<and> next_page_token s = JStr ''t''"
      by (auto simp: example_session_def split: if_splits)
  qed
  from has_more_flags [THEN conjunct1, rule_format, OF m]
  have "\<exists>api_response.
      endless_api (trace (second_world endless_api) @ [Sleep 3])
        (payload_of ''pizza in Rome'' (JStr ''t'')) = Some api_response \<and>
      False = (truthy (dict_get api_response ''nextPageToken'' JNull) \<and> (3::int) < 3)"
    using q by fastforce
  moreover from has_more_flags [THEN conjunct2, rule_format, OF s]
  have "\<exists>api_response.
      endless_api (trace initial_world) (payload_of (strip ''pizza in Rome'') JNull)
        = Some api_response \<and>
      extract_place_data api_response = Inr [example_record] \<and>
      True = truthy (dict_get api_response ''nextPageToken'' JNull)"
    by (auto simp: search_request_def dict_get_def)
  ultimately show ?thesis using m s by blast
qed

section \<open>The exporter\<close>

text \<open>
  Claim C6, as the code has it: export of an empty record sequence produces no CSV. The
  served variant fails with \<open>NoDataError\<close>. The non-served variant does not fail: it prints
  "No data to save to CSV", returns as after a successful export, and leaves every file as
  it was. Export of a non-empty sequence produces the header row followed by one row for
  each record, so the row count is the record count plus one: in the download of the served
  variant, in a write of the non-served variant, and in the file that a complete run of the
  non-served variant leaves behind.
\<close>

theorem export_no_data_and_row_count:
  "(map_of (session_data w) sid = Some s \<longrightarrow>
      (all_places s = [] \<longrightarrow> download_csv w sid = NoDataError) \<and>
      (all_places s \<noteq> [] \<longrightarrow>
         download_csv w sid =
           File_Response (Header fieldnames # map row_of (all_places s)) (filename s) \<and>
         length (Header fieldnames # map row_of (all_places s)) = length (all_places s) + 1)) \<and>
   save_to_csv st [] name append_flag = (Inr (), print ''No data to save to CSV'' st) \<and>
   files (snd (save_to_csv st [] name append_flag)) = files st \<and>
   (places_data \<noteq> [] \<and> \<not> denied st name \<longrightarrow>
      fst (save_to_csv st places_data name False) = Inr () \<and>
      files (snd (save_to_csv st places_data name False)) name =
        Some (Header fieldnames # map row_of places_data) \<and>
      length (Header fieldnames # map row_of places_data) = length places_data + 1) \<and>
   (main api st SEARCH_QUERY answers = (Inr (Some (fname, records, token, pc)), st') \<longrightarrow>
      files st' fname = Some (Header fieldnames # map row_of records) \<and>
      length (Header fieldnames # map row_of records) = length records + 1)"
proof (intro conjI impI)
  assume "map_of (session_data w) sid = Some s" and "all_places s = []"
  then show "download_csv w sid = NoDataError"
    by (simp add: download_csv_def NoDataError_def)
next
  assume "map_of (session_data w) sid = Some s" and "all_places s \<noteq> []"
  then show "download_csv w sid =
      File_Response (Header fieldnames # map row_of (all_places s)) (filename s)"
    by (simp add: download_csv_def)
next
  show "save_to_csv st [] name append_flag = (Inr (), print ''No data to save to CSV'' st)"
    by (simp add: save_to_csv_def)
next
  show "files (snd (save_to_csv st [] name append_flag)) = files st"
    by (simp add: save_to_csv_def)
next
  assume "places_data \<noteq> [] \<and> \<not> denied st name"
  then show "fst (save_to_csv st places_data name False) = Inr ()"
    by (simp add: save_to_csv_def)
next
  assume "places_data \<noteq> [] \<and> \<not> denied st name"
  then show "files (snd (save_to_csv st places_data name False)) name =
      Some (Header fieldnames # map row_of places_data)"
    by (simp add: save_to_csv_def)
next
  assume "main api st SEARCH_QUERY answers = (Inr (Some (fname, records, token, pc)), st')"
  then show "files st' fname = Some (Header fieldnames # map row_of records)"
    by (rule main_rows)
qed simp_all

text \<open>
  Witness for C6: a session without records and the session of the example after three
  pages; an export of one record to a new file; a complete run of the non-served variant.
\<close>

theorem export_no_data_and_row_count_witness:
  "download_csv \<lparr>session_data = [(''session_0'', example_session [] JNull 1)], trace = []\<rparr>
       ''session_0'' = NoDataError \<and>
   download_csv (third_world endless_api) ''session_0'' =
     File_Response
       [Header fieldnames, row_of example_record, row_of example_record, row_of example_record]
       ''Rome_pizza_results.csv'' \<and>
   files (snd (save_to_csv empty_cli [example_record] ''Rome_pizza_results.csv'' False))
       ''Rome_pizza_results.csv'' = Some [Header fieldnames, row_of example_record] \<and>
   files (snd (main endless_api empty_cli ''pizza in Rome'' [True, False]))
       ''Rome_pizza_results.csv'' =
     Some [Header fieldnames, row_of example_record, row_of example_record]"
proof -
  let ?w0 = "\<lparr>session_data = [(''session_0'', example_session [] JNull 1)], trace = []\<rparr>"
  let ?s3 = "example_session [example_record, example_record, example_record] (JStr ''t'') 3"
  let ?m = "main endless_api empty_cli ''pizza in Rome'' [True, False]"
  have s0: "map_of (session_data ?w0) ''session_0'' = Some (example_session [] JNull 1)"
    by simp
  have e0: "all_places (example_session [] JNull 1) = []"
    by (simp add: example_session_def)
  have s3: "map_of (session_data (third_world endless_api)) ''session_0'' = Some ?s3"
    by code_simp
  have e3: "all_places ?s3 \<noteq> []" by (simp add: example_session_def)
  have c: "[example_record] \<noteq> [] \<and> \<not> denied empty_cli ''Rome_pizza_results.csv''"
    by (simp add: empty_cli_def)
  have "fst ?m = Inr (Some (''Rome_pizza_results.csv'', [example_record, example_record],
      JStr ''t'', 2))"
    by code_simp
  then have m: "?m = (Inr (Some (''Rome_pizza_results.csv'', [example_record, example_record],
      JStr ''t'', 2)), snd ?m)"
    by (metis prod.collapse)
  have "download_csv ?w0 ''session_0'' = NoDataError"
    using export_no_data_and_row_count [of ?w0 "''session_0''" "example_session [] JNull 1"]
      s0 e0 by blast
  moreover have "download_csv (third_world endless_api) ''session_0'' =
      File_Response (Header fieldnames # map row_of (all_places ?s3)) (filename ?s3)"
    using export_no_data_and_row_count [of "third_world endless_api" "''session_0''" ?s3]
      s3 e3 by blast
  moreover have "files (snd (save_to_csv empty_cli [example_record] ''Rome_pizza_results.csv'' False))
       ''Rome_pizza_results.csv'' = Some (Header fieldnames # map row_of [example_record])"
    using export_no_data_and_row_count [of _ _ _ empty_cli "''Rome_pizza_results.csv''" _
        "[example_record]"] c by blast
  moreover have "files (snd ?m) ''Rome_pizza_results.csv'' =
      Some (Header fieldnames # map row_of [example_record, example_record])"
    using export_no_data_and_row_count [of _ _ _ empty_cli _ _ _ endless_api
        "''pizza in Rome''" "[True, False]" "''Rome_pizza_results.csv''"
        "[example_record, example_record]" "JStr ''t''" 2 "snd ?m"] m by blast
  ultimately show ?thesis by (simp add: example_session_def)
qed

text \<open>
  Claim C6 as stated fails in the non-served variant: the export of an empty record sequence
  returns normally, with the result of a successful export, and not with the exit that
  \<open>save_to_csv\<close> has for a failure.
\<close>

theorem export_no_data_and_row_count_counterexample:
  "fst (save_to_csv empty_cli [] ''Rome_pizza_results.csv'' False) = Inr () \<and>
   fst (save_to_csv empty_cli [] ''Rome_pizza_results.csv'' False) \<noteq> Inl (Exit 1) \<and>
   fst (save_to_csv empty_cli [] ''Rome_pizza_results.csv'' False)
     = fst (save_to_csv empty_cli [example_record] ''Rome_pizza_results.csv'' False)"
  by (simp add: save_to_csv_def empty_cli_def)

text \<open>
  Claim C7: in append mode the exporter writes the header row exactly when the file is new
  or empty. The rows that follow are the records, none of them a header, so a file that
  already holds rows gets no second header.
\<close>

theorem append_writes_header_iff_empty:
  assumes "places_data \<noteq> []" and "\<not> denied st name"
  shows "files (snd (save_to_csv st places_data name True)) name =
           Some (tell_append st name @
                 (if files st name = None \<or> files st name = Some [] then [Header fieldnames]
                  else []) @
                 map row_of places_data) \<and>
         Header fieldnames \<notin> set (map row_of places_data)"
proof -
  have "tell_append st name = [] \<longleftrightarrow> files st name = None \<or> files st name = Some []"
    by (simp add: tell_append_def split: option.splits)
  then show ?thesis
    using assms by (auto simp: save_to_csv_def Let_def row_of_def)
qed

text \<open>
  Witness for C7: appending one record to the file of the example, which holds a header and
  a row, and to a file that does not exist yet.
\<close>

theorem append_writes_header_iff_empty_witness:
  "files (snd (save_to_csv populated_cli [example_record] ''Rome_pizza_results.csv'' True))
       ''Rome_pizza_results.csv'' =
     Some [Header fieldnames, row_of example_record, row_of example_record] \<and>
   files (snd (save_to_csv empty_cli [example_record] ''Rome_pizza_results.csv'' True))
       ''Rome_pizza_results.csv'' = Some [Header fieldnames, row_of example_record]"
proof -
  have n: "[example_record] \<noteq> []" by simp
  have d1: "\<not> denied populated_cli ''Rome_pizza_results.csv''"
    by (simp add: populated_cli_def empty_cli_def)
  have d2: "\<not> denied empty_cli ''Rome_pizza_results.csv''"
    by (simp add: empty_cli_def)
  show ?thesis
    using append_writes_header_iff_empty [OF n d1] append_writes_header_iff_empty [OF n d2]
    by (simp add: populated_cli_def empty_cli_def tell_append_def)
qed


section \<open>The location and the category of the filename\<close>




text \<open>
  Claim C5 does not hold of the code: \<open>generate_filename\<close> looks for " in " without regard to
  case, and then splits at " in " in lower case only. For the query "Plumbers IN Boston"
  the text before the first " in " is "Plumbers", and the category of the code is the
  whole query.
\<close>

theorem business_type_split_is_case_sensitive:
  "spec_category ''Plumbers IN Boston'' = Inr ''Plumbers'' \<and>
   business_type_of ''Plumbers IN Boston'' = Inr ''Plumbers IN Boston'' \<and>
   generate_filename ''Plumbers IN Boston'' = Inr ''Boston_Plumbers_IN_Boston_results.csv''"
  by code_simp

end
